theory Spec2Isabelle
  imports Main "HOL-Library.Sublist"
begin

section \<open>Weekly recipes job: a shallow embedding of jobs/weekly_recipes/handler.py\<close>

text \<open>
  Python's \<^verbatim>\<open>str\<close> is modelled as \<^typ>\<open>string\<close>; a character stands for the code point
  of the same number (U+0000 to U+00FF). Exceptions are values of \<open>error\<close>, and a function
  that can raise returns \<open>error + 'a\<close>.
\<close>

subsection \<open>String operations of the Python runtime\<close>

datatype error = ValueError | FetchError | ParseError | ImportError | ClientError

text \<open>\<^verbatim>\<open>str.isspace\<close> on one character: TAB..CR, FS..US, SPACE, NEL and NBSP.\<close>

definition is_space :: "char \<Rightarrow> bool" where
  "is_space c =
     (let n = (of_char c :: nat)
      in (9 \<le> n \<and> n \<le> 13) \<or> (28 \<le> n \<and> n \<le> 32) \<or> n = 133 \<or> n = 160)"

text \<open>\<^verbatim>\<open>s.split()\<close>: the maximal runs of non-space characters, in order. The first
  argument is the word being read.\<close>

fun split_acc :: "string \<Rightarrow> string \<Rightarrow> string list" where
  "split_acc w [] = (if w = [] then [] else [w])"
| "split_acc w (c # cs) =
     (if is_space c then (if w = [] then split_acc [] cs else w # split_acc [] cs)
      else split_acc (w @ [c]) cs)"

definition split_ws :: "string \<Rightarrow> string list" where
  "split_ws s = split_acc [] s"

text \<open>\<^verbatim>\<open>sep.join(parts)\<close>.\<close>

fun join :: "string \<Rightarrow> string list \<Rightarrow> string" where
  "join sep [] = []"
| "join sep [x] = x"
| "join sep (x # y # ys) = x @ sep @ join sep (y # ys)"

text \<open>\<^verbatim>\<open>s.strip()\<close>, and \<^verbatim>\<open>s.lstrip(chars)\<close>, \<^verbatim>\<open>s.rstrip(chars)\<close>, \<^verbatim>\<open>s.strip(chars)\<close>.\<close>

definition strip_ws :: "string \<Rightarrow> string" where
  "strip_ws s = rev (dropWhile is_space (rev (dropWhile is_space s)))"

definition lstrip :: "string \<Rightarrow> string \<Rightarrow> string" where
  "lstrip chars s = dropWhile (\<lambda>c. c \<in> set chars) s"

definition rstrip :: "string \<Rightarrow> string \<Rightarrow> string" where
  "rstrip chars s = rev (dropWhile (\<lambda>c. c \<in> set chars) (rev s))"

definition strip :: "string \<Rightarrow> string \<Rightarrow> string" where
  "strip chars s = rstrip chars (lstrip chars s)"

text \<open>\<^verbatim>\<open>str.lower\<close>: A..Z, and the upper-case letters of Latin-1 (U+00C0..U+00DE but the
  multiplication sign U+00D7), move up by 32.\<close>

definition lower_char :: "char \<Rightarrow> char" where
  "lower_char c =
     (let n = (of_char c :: nat)
      in if (65 \<le> n \<and> n \<le> 90) \<or> (192 \<le> n \<and> n \<le> 222 \<and> n \<noteq> 215)
         then char_of (n + 32) else c)"

definition lower :: "string \<Rightarrow> string" where
  "lower s = map lower_char s"

text \<open>\<^verbatim>\<open>sub in s\<close> for strings.\<close>

fun contains :: "string \<Rightarrow> string \<Rightarrow> bool" where
  "contains [] sub = (sub = [])"
| "contains (c # cs) sub = (prefix sub (c # cs) \<or> contains cs sub)"

text \<open>\<^verbatim>\<open>s.split(sep)\<close> for a one-character separator: never empty.\<close>

fun split_on :: "char \<Rightarrow> string \<Rightarrow> string list" where
  "split_on sep [] = [[]]"
| "split_on sep (c # cs) =
     (if c = sep then [] # split_on sep cs
      else (case split_on sep cs of
              [] \<Rightarrow> [[c]]
            | p # ps \<Rightarrow> (c # p) # ps))"

subsection \<open>Anchors and recipes\<close>

text \<open>An anchor is the dict built by \<^verbatim>\<open>AnchorExtractor\<close>; a field is \<open>None\<close> when
  \<^verbatim>\<open>dict.get\<close> returns None (the key is absent, or the attribute has no value).\<close>

record anchor =
  href :: "string option"
  title_attr :: "string option"
  aria_label :: "string option"
  text_of :: "string option"

record recipe =
  title :: string
  url :: string

subsection \<open>pick_title\<close>

definition clean_title :: "string \<Rightarrow> string" where
  "clean_title candidate = strip_ws (join '' '' (split_ws candidate))"

text \<open>The loop over the candidates: a None or empty candidate is skipped
  (\<^verbatim>\<open>if not candidate: continue\<close>).\<close>

fun title_loop :: "string option list \<Rightarrow> string option" where
  "title_loop [] = None"
| "title_loop (candidate # candidates) =
     (case candidate of
        None \<Rightarrow> title_loop candidates
      | Some c \<Rightarrow>
          if c = [] then title_loop candidates
          else (let cleaned = clean_title c
                in if 4 \<le> length cleaned \<and> length cleaned \<le> 120 then Some cleaned
                   else title_loop candidates))"

definition pick_title :: "anchor \<Rightarrow> string option" where
  "pick_title a = title_loop [text_of a, aria_label a, title_attr a]"

subsection \<open>dedupe_recipes\<close>

text \<open>The loop of \<^verbatim>\<open>dedupe_recipes\<close>, with its two variables \<^verbatim>\<open>seen\<close> and
  \<^verbatim>\<open>deduped\<close>.\<close>

fun dedupe_loop :: "string set \<Rightarrow> recipe list \<Rightarrow> recipe list \<Rightarrow> recipe list" where
  "dedupe_loop seen deduped [] = deduped"
| "dedupe_loop seen deduped (r # rs) =
     (let u = lower (url r)
      in if u \<in> seen then dedupe_loop seen deduped rs
         else dedupe_loop (insert u seen) (deduped @ [r]) rs)"

definition dedupe_recipes :: "recipe list \<Rightarrow> recipe list" where
  "dedupe_recipes recipes = dedupe_loop {} [] recipes"

subsection \<open>AnchorExtractor\<close>

text \<open>The callbacks \<^verbatim>\<open>HTMLParser.feed\<close> makes, in document order. Tag and attribute names
  arrive lower-cased; an attribute without a value has the value None.\<close>

datatype event =
  StartTag string "(string \<times> string option) list"
| EndTag string
| Data string

record extractor =
  anchors :: "anchor list"
  current :: "anchor option"
  text_parts :: "string list"

definition new_extractor :: extractor where
  "new_extractor = \<lparr>anchors = [], current = None, text_parts = []\<rparr>"

text \<open>\<^verbatim>\<open>attr_map.get(key)\<close> for \<^verbatim>\<open>attr_map = {key: value for key, value in attrs}\<close>: the last
  pair of a key wins.\<close>

definition attr_get :: "(string \<times> string option) list \<Rightarrow> string \<Rightarrow> string option" where
  "attr_get attrs key = (case map_of (rev attrs) key of None \<Rightarrow> None | Some v \<Rightarrow> v)"

definition handle_starttag ::
  "string \<Rightarrow> (string \<times> string option) list \<Rightarrow> extractor \<Rightarrow> extractor" where
  "handle_starttag tag attrs self =
     (if tag \<noteq> ''a'' then self
      else self\<lparr>current := Some \<lparr>href = attr_get attrs ''href'',
                                  title_attr = attr_get attrs ''title'',
                                  aria_label = attr_get attrs ''aria-label'',
                                  text_of = None\<rparr>,
                text_parts := []\<rparr>)"

definition handle_data :: "string \<Rightarrow> extractor \<Rightarrow> extractor" where
  "handle_data d self =
     (if current self \<noteq> None then self\<lparr>text_parts := text_parts self @ [d]\<rparr> else self)"

definition anchor_text :: "string list \<Rightarrow> string" where
  "anchor_text parts = join '' '' (split_ws (strip_ws (join '' '' parts)))"

definition handle_endtag :: "string \<Rightarrow> extractor \<Rightarrow> extractor" where
  "handle_endtag tag self =
     (case current self of
        None \<Rightarrow> self
      | Some cur \<Rightarrow>
          if tag \<noteq> ''a'' then self
          else self\<lparr>anchors := anchors self @ [cur\<lparr>text_of := Some (anchor_text (text_parts self))\<rparr>],
                    current := None,
                    text_parts := []\<rparr>)"

fun handle :: "event \<Rightarrow> extractor \<Rightarrow> extractor" where
  "handle (StartTag tag attrs) self = handle_starttag tag attrs self"
| "handle (EndTag tag) self = handle_endtag tag self"
| "handle (Data d) self = handle_data d self"

text \<open>\<^verbatim>\<open>parser.feed(html)\<close> on the events of the markup; \<^verbatim>\<open>extract_recipes\<close> never calls
  \<^verbatim>\<open>close\<close>, and nothing is done at the end of the input.\<close>

fun feed :: "event list \<Rightarrow> extractor \<Rightarrow> extractor" where
  "feed [] self = self"
| "feed (e # es) self = feed es (handle e self)"

subsection \<open>urllib.parse (CPython 3.11): urlsplit, urlparse, urlunsplit, urlunparse\<close>

text \<open>\<^verbatim>\<open>s.find(c, start)\<close> and \<^verbatim>\<open>s.rfind(c)\<close> for a character: an index, or -1.\<close>

definition str_find :: "string \<Rightarrow> char \<Rightarrow> nat \<Rightarrow> int" where
  "str_find s c start =
     (let t = drop start s
      in if c \<in> set t then int start + int (length (takeWhile (\<lambda>x. x \<noteq> c) t)) else - 1)"

definition str_rfind :: "string \<Rightarrow> char \<Rightarrow> int" where
  "str_rfind s c =
     (if c \<in> set s then int (length s) - 1 - int (length (takeWhile (\<lambda>x. x \<noteq> c) (rev s)))
      else - 1)"

definition uses_netloc :: "string list" where
  "uses_netloc = ['''', ''ftp'', ''http'', ''gopher'', ''nntp'', ''telnet'',
     ''imap'', ''wais'', ''file'', ''mms'', ''https'', ''shttp'',
     ''snews'', ''prospero'', ''rtsp'', ''rtsps'', ''rtspu'', ''rsync'',
     ''svn'', ''svn+ssh'', ''sftp'', ''nfs'', ''git'', ''git+ssh'',
     ''ws'', ''wss'']"

definition uses_params :: "string list" where
  "uses_params = ['''', ''ftp'', ''hdl'', ''prospero'', ''http'', ''imap'',
     ''https'', ''shttp'', ''rtsp'', ''rtsps'', ''rtspu'', ''sip'',
     ''sips'', ''mms'', ''sftp'', ''tel'']"

definition scheme_chars :: string where
  "scheme_chars = ''abcdefghijklmnopqrstuvwxyzABCDEFGHIJKLMNOPQRSTUVWXYZ0123456789+-.''"

text \<open>The characters of \<^verbatim>\<open>_WHATWG_C0_CONTROL_OR_SPACE\<close> (U+0000..U+0020) and of
  \<^verbatim>\<open>_UNSAFE_URL_BYTES_TO_REMOVE\<close> (TAB, CR, LF).\<close>

definition c0_control_or_space :: "char \<Rightarrow> bool" where
  "c0_control_or_space c = ((of_char c :: nat) \<le> 32)"

definition unsafe_url_byte :: "char \<Rightarrow> bool" where
  "unsafe_url_byte c = ((of_char c :: nat) \<in> {9, 13, 10})"

text \<open>\<^verbatim>\<open>c.isascii() and c.isalpha()\<close>.\<close>

definition ascii_alpha :: "char \<Rightarrow> bool" where
  "ascii_alpha c =
     (let n = (of_char c :: nat) in (65 \<le> n \<and> n \<le> 90) \<or> (97 \<le> n \<and> n \<le> 122))"

record split_result =
  sr_scheme :: string
  sr_netloc :: string
  sr_path :: string
  sr_query :: string
  sr_fragment :: string

record parse_result =
  scheme :: string
  netloc :: string
  path :: string
  params :: string
  query :: string
  fragment :: string

text \<open>\<^verbatim>\<open>_splitnetloc(url, start)\<close>: the domain runs to the first of \<open>/\<close>, \<open>?\<close>, \<open>#\<close>.\<close>

definition splitnetloc :: "string \<Rightarrow> nat \<Rightarrow> string \<times> string" where
  "splitnetloc u start =
     (let delim = fold (\<lambda>c delim. let wdelim = str_find u c start
                                  in if wdelim \<ge> 0 then min delim (nat wdelim) else delim)
                    ''/?#'' (length u)
      in (drop start (take delim u), drop delim u))"

text \<open>\<^verbatim>\<open>netloc.partition('[')[2].partition(']')[0]\<close>.\<close>

definition bracketed_host :: "string \<Rightarrow> string" where
  "bracketed_host nl =
     takeWhile (\<lambda>c. c \<noteq> CHR '']'') (drop 1 (dropWhile (\<lambda>c. c \<noteq> CHR ''['') nl))"

text \<open>\<^verbatim>\<open>s.split(c, 1)\<close> when \<open>c\<close> is in \<open>s\<close>: the parts before and after the first \<open>c\<close>.\<close>

definition split_once :: "char \<Rightarrow> string \<Rightarrow> string \<times> string" where
  "split_once c s = (takeWhile (\<lambda>x. x \<noteq> c) s, drop 1 (dropWhile (\<lambda>x. x \<noteq> c) s))"

text \<open>
  \<^verbatim>\<open>urlsplit(url)\<close> with the default scheme and fragments allowed. \<^verbatim>\<open>_check_bracketed_host\<close>
  (the validation of an IPv6 or IPvFuture literal by the \<^verbatim>\<open>ipaddress\<close> module) is the
  parameter \<open>host_ok\<close>: it raises ValueError exactly when \<open>host_ok\<close> is false.
  \<^verbatim>\<open>_checknetloc\<close> only raises when a character of the netloc turns into one of
  \<open>/ ? # @ :\<close> under NFKC normalisation; no code point below 256 does.
\<close>

definition urlsplit :: "(string \<Rightarrow> bool) \<Rightarrow> string \<Rightarrow> error + split_result" where
  "urlsplit host_ok url0 =
     (let url1 = dropWhile c0_control_or_space url0;
          url2 = filter (\<lambda>c. \<not> unsafe_url_byte c) url1;
          i = str_find url2 CHR '':'' 0;
          has_scheme = (i > 0 \<and> ascii_alpha (hd url2) \<and>
                        list_all (\<lambda>c. c \<in> set scheme_chars) (take (nat i) url2));
          sch = (if has_scheme then lower (take (nat i) url2) else []);
          url3 = (if has_scheme then drop (nat i + 1) url2 else url2);
          has_netloc = (take 2 url3 = ''//'');
          nl = (if has_netloc then fst (splitnetloc url3 2) else []);
          url4 = (if has_netloc then snd (splitnetloc url3 2) else url3)
      in if (CHR ''['' \<in> set nl \<and> CHR '']'' \<notin> set nl) \<or>
            (CHR '']'' \<in> set nl \<and> CHR ''['' \<notin> set nl)
         then Inl ValueError
         else if CHR ''['' \<in> set nl \<and> CHR '']'' \<in> set nl \<and> \<not> host_ok (bracketed_host nl)
         then Inl ValueError
         else
           (let has_fragment = (CHR ''#'' \<in> set url4);
                frag = (if has_fragment then snd (split_once CHR ''#'' url4) else []);
                url5 = (if has_fragment then fst (split_once CHR ''#'' url4) else url4);
                has_query = (CHR ''?'' \<in> set url5);
                qry = (if has_query then snd (split_once CHR ''?'' url5) else []);
                url6 = (if has_query then fst (split_once CHR ''?'' url5) else url5)
            in Inr \<lparr>sr_scheme = sch, sr_netloc = nl, sr_path = url6,
                     sr_query = qry, sr_fragment = frag\<rparr>))"

text \<open>\<^verbatim>\<open>_splitparams(url)\<close>.\<close>

definition splitparams :: "string \<Rightarrow> string \<times> string" where
  "splitparams u =
     (if CHR ''/'' \<in> set u
      then (let i = str_find u CHR '';'' (nat (str_rfind u CHR ''/''))
            in if i < 0 then (u, []) else (take (nat i) u, drop (nat i + 1) u))
      else (let i = str_find u CHR '';'' 0
            in (take (nat i) u, drop (nat i + 1) u)))"

definition urlparse :: "(string \<Rightarrow> bool) \<Rightarrow> string \<Rightarrow> error + parse_result" where
  "urlparse host_ok url0 =
     (case urlsplit host_ok url0 of
        Inl e \<Rightarrow> Inl e
      | Inr s \<Rightarrow>
          (let has_params = (sr_scheme s \<in> set uses_params \<and> CHR '';'' \<in> set (sr_path s));
               p = (if has_params then fst (splitparams (sr_path s)) else sr_path s);
               ps = (if has_params then snd (splitparams (sr_path s)) else [])
           in Inr \<lparr>scheme = sr_scheme s, netloc = sr_netloc s, path = p, params = ps,
                    query = sr_query s, fragment = sr_fragment s\<rparr>))"

definition urlunsplit :: "split_result \<Rightarrow> string" where
  "urlunsplit s =
     (let u1 = sr_path s;
          u2 = (if sr_netloc s \<noteq> [] \<or> (sr_scheme s \<noteq> [] \<and> sr_scheme s \<in> set uses_netloc)
                   \<or> take 2 u1 = ''//''
                then ''//'' @ sr_netloc s @ (if u1 \<noteq> [] \<and> take 1 u1 \<noteq> ''/'' then ''/'' @ u1 else u1)
                else u1);
          u3 = (if sr_scheme s \<noteq> [] then sr_scheme s @ '':'' @ u2 else u2);
          u4 = (if sr_query s \<noteq> [] then u3 @ ''?'' @ sr_query s else u3);
          u5 = (if sr_fragment s \<noteq> [] then u4 @ ''#'' @ sr_fragment s else u4)
      in u5)"

definition urlunparse :: "parse_result \<Rightarrow> string" where
  "urlunparse p =
     (let u = (if params p \<noteq> [] then path p @ '';'' @ params p else path p)
      in urlunsplit \<lparr>sr_scheme = scheme p, sr_netloc = netloc p, sr_path = u,
                      sr_query = query p, sr_fragment = fragment p\<rparr>)"


text \<open>\<^verbatim>\<open>ParseResult.geturl\<close>.\<close>

definition geturl :: "parse_result \<Rightarrow> string" where
  "geturl p = urlunparse p"

subsection \<open>is_recipe_url and strip_url\<close>

definition EXCLUDED_PATH_PREFIXES :: "string list" where
  "EXCLUDED_PATH_PREFIXES = [''category'', ''tag'', ''page'', ''wp-content'', ''wp-json'', ''author'']"

definition EXCLUDED_PATH_FRAGMENTS :: "string list" where
  "EXCLUDED_PATH_FRAGMENTS =
     [''privacy'', ''terms'', ''contact'', ''about'', ''disclaimer'', ''shop'', ''store'', ''print'']"

definition is_recipe_url :: "(string \<Rightarrow> bool) \<Rightarrow> string \<Rightarrow> error + bool" where
  "is_recipe_url host_ok u =
     (case urlparse host_ok u of
        Inl e \<Rightarrow> Inl e
      | Inr parsed \<Rightarrow>
          if scheme parsed \<notin> {''http'', ''https''} then Inr False
          else (let host = lower (netloc parsed)
                in if host \<notin> {''www.noracooks.com'', ''noracooks.com''} then Inr False
                   else (let p = strip ''/'' (path parsed)
                         in if p = [] then Inr False
                            else (let segments = filter (\<lambda>segment. segment \<noteq> []) (split_on CHR ''/'' p)
                                  in if segments = [] then Inr False
                                     else if lower (hd segments) \<in> set EXCLUDED_PATH_PREFIXES then Inr False
                                     else if list_ex (\<lambda>fragment. contains (lower p) fragment)
                                               EXCLUDED_PATH_FRAGMENTS
                                     then Inr False
                                     else Inr True))))"

definition strip_url :: "(string \<Rightarrow> bool) \<Rightarrow> string \<Rightarrow> error + string" where
  "strip_url host_ok u =
     (case urlparse host_ok u of
        Inl e \<Rightarrow> Inl e
      | Inr parsed \<Rightarrow>
          (let p = path parsed;
               p = (if p \<noteq> ''/'' then rstrip ''/'' p else p);
               cleaned = parsed\<lparr>query := '''', fragment := '''', path := p\<rparr>
           in Inr (geturl cleaned)))"

subsection \<open>extract_recipes\<close>

text \<open>
  The loop over \<^verbatim>\<open>parser.anchors\<close>. \<^verbatim>\<open>urllib.parse.urljoin\<close> is the parameter \<open>urljoin\<close>.
  An exception of a step leaves the loop and the function.
\<close>

fun recipes_loop ::
  "(string \<Rightarrow> bool) \<Rightarrow> (string \<Rightarrow> string \<Rightarrow> error + string) \<Rightarrow> string \<Rightarrow>
   recipe list \<Rightarrow> anchor list \<Rightarrow> error + recipe list" where
  "recipes_loop host_ok urljoin base_url recipes [] = Inr recipes"
| "recipes_loop host_ok urljoin base_url recipes (a # as) =
     (case href a of
        None \<Rightarrow> recipes_loop host_ok urljoin base_url recipes as
      | Some h \<Rightarrow>
          if h = [] then recipes_loop host_ok urljoin base_url recipes as
          else (case urljoin base_url h of
                  Inl e \<Rightarrow> Inl e
                | Inr joined \<Rightarrow>
                    (case strip_url host_ok joined of
                       Inl e \<Rightarrow> Inl e
                     | Inr u \<Rightarrow>
                         (case is_recipe_url host_ok u of
                            Inl e \<Rightarrow> Inl e
                          | Inr ok \<Rightarrow>
                              if \<not> ok then recipes_loop host_ok urljoin base_url recipes as
                              else (case pick_title a of
                                      None \<Rightarrow> recipes_loop host_ok urljoin base_url recipes as
                                    | Some t \<Rightarrow>
                                        if t = [] then recipes_loop host_ok urljoin base_url recipes as
                                        else recipes_loop host_ok urljoin base_url
                                               (recipes @ [\<lparr>title = t, url = u\<rparr>]) as)))))"

text \<open>\<^verbatim>\<open>extract_recipes(html, base_url)\<close>; \<open>html_events\<close> is the tokenizer of
  \<^verbatim>\<open>html.parser.HTMLParser\<close>, which turns the markup into the callbacks.\<close>

definition extract_recipes ::
  "(string \<Rightarrow> error + event list) \<Rightarrow> (string \<Rightarrow> bool) \<Rightarrow> (string \<Rightarrow> string \<Rightarrow> error + string) \<Rightarrow>
   string \<Rightarrow> string \<Rightarrow> error + recipe list" where
  "extract_recipes html_events host_ok urljoin html base_url =
     (case html_events html of
        Inl e \<Rightarrow> Inl e
      | Inr events \<Rightarrow>
          recipes_loop host_ok urljoin base_url [] (anchors (feed events new_extractor)))"

subsection \<open>datetime: isocalendar and strftime\<close>

text \<open>The date fields of \<^verbatim>\<open>est_now\<close>; the time of day and the zone play no part below.\<close>

record datetime =
  dt_year :: int
  dt_month :: int
  dt_day :: int

definition is_leap :: "int \<Rightarrow> bool" where
  "is_leap y = (y mod 4 = 0 \<and> (y mod 100 \<noteq> 0 \<or> y mod 400 = 0))"

definition days_before_year :: "int \<Rightarrow> int" where
  "days_before_year year = (let y = year - 1 in y * 365 + y div 4 - y div 100 + y div 400)"

definition DAYS_BEFORE_MONTH :: "int list" where
  "DAYS_BEFORE_MONTH = [- 1, 0, 31, 59, 90, 120, 151, 181, 212, 243, 273, 304, 334]"

definition days_before_month :: "int \<Rightarrow> int \<Rightarrow> int" where
  "days_before_month year month =
     DAYS_BEFORE_MONTH ! nat month + (if month > 2 \<and> is_leap year then 1 else 0)"

definition ymd2ord :: "int \<Rightarrow> int \<Rightarrow> int \<Rightarrow> int" where
  "ymd2ord year month day = days_before_year year + days_before_month year month + day"

definition isoweek1monday :: "int \<Rightarrow> int" where
  "isoweek1monday year =
     (let firstday = ymd2ord year 1 1;
          firstweekday = (firstday + 6) mod 7;
          week1monday = firstday - firstweekday
      in if firstweekday > 3 then week1monday + 7 else week1monday)"

text \<open>\<^verbatim>\<open>now.isocalendar()\<close>: ISO year, ISO week number and ISO weekday.\<close>

definition isocalendar :: "datetime \<Rightarrow> int \<times> int \<times> int" where
  "isocalendar now =
     (let year = dt_year now;
          week1monday = isoweek1monday year;
          today = ymd2ord (dt_year now) (dt_month now) (dt_day now);
          week = (today - week1monday) div 7;
          day = (today - week1monday) mod 7
      in if week < 0
         then (let year' = year - 1;
                   week1monday' = isoweek1monday year'
               in (year', (today - week1monday') div 7 + 1, (today - week1monday') mod 7 + 1))
         else if week \<ge> 52 \<and> today \<ge> isoweek1monday (year + 1)
         then (year + 1, 1, day + 1)
         else (year, week + 1, day + 1))"

text \<open>\<^verbatim>\<open>str(n)\<close> for an integer.\<close>

fun str_nat :: "nat \<Rightarrow> string" where
  "str_nat n =
     (if n < 10 then [char_of (48 + n)] else str_nat (n div 10) @ [char_of (48 + n mod 10)])"

definition str_int :: "int \<Rightarrow> string" where
  "str_int i = (if i < 0 then ''-'' @ str_nat (nat (- i)) else str_nat (nat i))"

definition month_abbr :: "string list" where
  "month_abbr = [''Jan'', ''Feb'', ''Mar'', ''Apr'', ''May'', ''Jun'',
                 ''Jul'', ''Aug'', ''Sep'', ''Oct'', ''Nov'', ''Dec'']"

text \<open>\<^verbatim>\<open>est_now.strftime("Week of %b %d, %Y")\<close>.\<close>

definition week_label_of :: "datetime \<Rightarrow> string" where
  "week_label_of now =
     ''Week of '' @ month_abbr ! nat (dt_month now - 1) @ '' '' @
     (if dt_day now < 10 then ''0'' else '''') @ str_int (dt_day now) @ '', '' @ str_int (dt_year now)"

subsection \<open>pick_weekly_recipes\<close>

text \<open>
  \<^verbatim>\<open>random.Random(seed).sample(population, k)\<close>. The choice the seeded generator makes is
  the parameter \<open>chooser\<close>, a function of the seed, the population and \<open>k\<close>; the check of
  \<open>k\<close> is the one \<^verbatim>\<open>sample\<close> makes before it draws.
\<close>

definition random_sample ::
  "(string \<Rightarrow> 'a list \<Rightarrow> nat \<Rightarrow> 'a list) \<Rightarrow> string \<Rightarrow> 'a list \<Rightarrow> int \<Rightarrow> error + 'a list" where
  "random_sample chooser seed population k =
     (if 0 \<le> k \<and> k \<le> int (length population) then Inr (chooser seed population (nat k))
      else Inl ValueError)"

definition week_seed :: "datetime \<Rightarrow> string" where
  "week_seed now = (case isocalendar now of (y, w, d) \<Rightarrow> str_int y @ ''-W'' @ str_int w)"

definition pick_weekly_recipes ::
  "(string \<Rightarrow> 'a list \<Rightarrow> nat \<Rightarrow> 'a list) \<Rightarrow> 'a list \<Rightarrow> int \<Rightarrow> datetime \<Rightarrow> error + 'a list" where
  "pick_weekly_recipes chooser recipes count now =
     (let seed = week_seed now
      in if int (length recipes) \<le> count then Inr recipes
         else random_sample chooser seed recipes count)"

subsection \<open>format_recipes and main\<close>

definition RECIPE_PAGES :: "string list" where
  "RECIPE_PAGES = [''https://www.noracooks.com/category/meal-type/dinner/'',
                   ''https://www.noracooks.com/category/meal-type/lunch/'']"

fun recipe_lines :: "nat \<Rightarrow> recipe list \<Rightarrow> string list" where
  "recipe_lines idx [] = []"
| "recipe_lines idx (r # rs) =
     [str_nat idx @ ''. '' @ title r, ''   '' @ url r, ''''] @ recipe_lines (Suc idx) rs"

definition format_recipes :: "recipe list \<Rightarrow> string \<Rightarrow> string" where
  "format_recipes recipes week_label =
     join [CHR 10]
       ([''Weekly vegan recipe picks ('' @ week_label @ '')'', ''''] @ recipe_lines 1 recipes @
        [''Sources:''] @ map (\<lambda>u. ''- '' @ u) RECIPE_PAGES)"

record email =
  em_sender :: string
  em_recipient :: string
  em_subject :: string
  em_body :: string

text \<open>The dict \<^verbatim>\<open>main\<close> returns: status "success" with the recipe count, or status "error"
  with a message.\<close>

datatype outcome = Success nat | Failure string

text \<open>
  What a run of \<^verbatim>\<open>main\<close> reads from outside: the two environment variables, the answer
  of \<^verbatim>\<open>fetch_url\<close> for each URL (the page, or the exception raised), the clock, and the
  mail service; and the library functions the job calls. \<open>boto3_client\<close> is what
  \<^verbatim>\<open>import boto3\<close> followed by the creation of the SES client with \<^verbatim>\<open>boto3.client\<close> gives:
  the exception raised by one of the two, or the client, whose \<^verbatim>\<open>send_email\<close> answers a
  message or raises.
\<close>

record world =
  env_recipient :: "string option"
  env_sender :: "string option"
  fetch_url :: "string \<Rightarrow> error + string"
  est_now :: datetime
  boto3_client :: "error + (email \<Rightarrow> error + unit)"
  lib_html_events :: "string \<Rightarrow> error + event list"
  lib_host_ok :: "string \<Rightarrow> bool"
  lib_urljoin :: "string \<Rightarrow> string \<Rightarrow> error + string"
  lib_chooser :: "string \<Rightarrow> recipe list \<Rightarrow> nat \<Rightarrow> recipe list"

text \<open>The loop over \<^verbatim>\<open>RECIPE_PAGES\<close>: an exception of \<^verbatim>\<open>fetch_url\<close> or of
  \<^verbatim>\<open>extract_recipes\<close> is caught (and printed), and the loop goes on.\<close>

fun fetch_loop :: "world \<Rightarrow> recipe list \<Rightarrow> string list \<Rightarrow> recipe list" where
  "fetch_loop w recipes [] = recipes"
| "fetch_loop w recipes (u # us) =
     (case fetch_url w u of
        Inl exc \<Rightarrow> fetch_loop w recipes us
      | Inr html \<Rightarrow>
          (case extract_recipes (lib_html_events w) (lib_host_ok w) (lib_urljoin w) html u of
             Inl exc \<Rightarrow> fetch_loop w recipes us
           | Inr found \<Rightarrow> fetch_loop w (recipes @ found) us))"

text \<open>Python's truth value of \<^verbatim>\<open>os.environ.get(name)\<close>.\<close>

definition truthy :: "string option \<Rightarrow> bool" where
  "truthy v = (case v of None \<Rightarrow> False | Some s \<Rightarrow> s \<noteq> [])"

definition no_recipes_body :: string where
  "no_recipes_body =
     ''No recipes were found this week. Please check the source pages or parser rules.'' @
     [CHR 10, CHR 10] @ ''Sources:'' @ [CHR 10] @
     ''- '' @ RECIPE_PAGES ! 0 @ [CHR 10] @ ''- '' @ RECIPE_PAGES ! 1 @ [CHR 10]"

text \<open>\<^verbatim>\<open>send_email(sender, recipient, subject, body)\<close>: the import and the creation of the
  client stand before the \<^verbatim>\<open>try\<close>, so their exception leaves the function; an exception of
  the client's \<^verbatim>\<open>send_email\<close> is caught and gives False.\<close>

definition send_email :: "world \<Rightarrow> string \<Rightarrow> string \<Rightarrow> string \<Rightarrow> string \<Rightarrow> error + bool" where
  "send_email w sender recipient subject body =
     (case boto3_client w of
        Inl exc \<Rightarrow> Inl exc
      | Inr ses \<Rightarrow>
          (case ses \<lparr>em_sender = sender, em_recipient = recipient,
                     em_subject = subject, em_body = body\<rparr> of
             Inl e \<Rightarrow> Inr False
           | Inr response \<Rightarrow> Inr True))"

text \<open>\<^verbatim>\<open>main(event, context)\<close>: the message handed to \<^verbatim>\<open>send_email\<close> (None when the run
  stops before) and the dict returned; \<open>Inl\<close> is an exception that leaves \<^verbatim>\<open>main\<close>. The
  call of \<^verbatim>\<open>send_email\<close> stands in no \<^verbatim>\<open>try\<close>.\<close>

definition main :: "world \<Rightarrow> error + (email option \<times> outcome)" where
  "main w =
     (if \<not> (truthy (env_recipient w) \<and> truthy (env_sender w))
      then Inr (None, Failure ''Missing config'')
      else
        (let recipes = dedupe_recipes (fetch_loop w [] RECIPE_PAGES);
             week_label = week_label_of (est_now w);
             message =
               (if recipes = []
                then Inr (''Weekly Vegan Recipes - '' @ week_label @ '' - No recipes found'',
                          no_recipes_body)
                else (case pick_weekly_recipes (lib_chooser w) recipes 5 (est_now w) of
                        Inl exc \<Rightarrow> Inl exc
                      | Inr selected \<Rightarrow>
                          Inr (''Weekly Vegan Recipes - '' @ week_label,
                               format_recipes selected week_label)))
         in case message of
              Inl exc \<Rightarrow> Inl exc
            | Inr (subject, body) \<Rightarrow>
                (case send_email w (the (env_sender w)) (the (env_recipient w)) subject body of
                   Inl exc \<Rightarrow> Inl exc
                 | Inr success \<Rightarrow>
                     Inr (Some \<lparr>em_sender = the (env_sender w), em_recipient = the (env_recipient w),
                                 em_subject = subject, em_body = body\<rparr>,
                          if success then Success (length recipes)
                          else Failure ''Failed to send email''))))"

subsection \<open>Notions of the specification\<close>

text \<open>The first path segment: the path without its leading slashes, up to the next slash.\<close>

definition first_path_segment :: "string \<Rightarrow> string" where
  "first_path_segment p =
     takeWhile (\<lambda>c. c \<noteq> CHR ''/'') (dropWhile (\<lambda>c. c = CHR ''/'') p)"

text \<open>An event that opens or closes an anchor, and the text nodes of a run of events.\<close>

fun opens_anchor :: "event \<Rightarrow> bool" where
  "opens_anchor (StartTag tag attrs) = (tag = ''a'')"
| "opens_anchor e = False"

fun closes_anchor :: "event \<Rightarrow> bool" where
  "closes_anchor (EndTag tag) = (tag = ''a'')"
| "closes_anchor e = False"

fun data_of :: "event list \<Rightarrow> string list" where
  "data_of [] = []"
| "data_of (Data d # es) = d # data_of es"
| "data_of (e # es) = data_of es"

text \<open>The recipes a source page contributes to a run: those extracted from it, and none
  when fetching or extracting raises.\<close>

definition source_recipes :: "world \<Rightarrow> string \<Rightarrow> recipe list" where
  "source_recipes w u =
     (case fetch_url w u of
        Inl exc \<Rightarrow> []
      | Inr html \<Rightarrow>
          (case extract_recipes (lib_html_events w) (lib_host_ok w) (lib_urljoin w) html u of
             Inl exc \<Rightarrow> []
           | Inr found \<Rightarrow> found))"

subsection \<open>Three runs of the job\<close>

text \<open>A run in which fetching the dinner page fails and the lunch page holds one recipe
  link. The mail service accepts the message in the first world and refuses it in the
  second; in the third the SES client cannot be created.\<close>

definition scenario6 :: world where
  "scenario6 =
     \<lparr>env_recipient = Some ''reader@example.org'', env_sender = Some ''cron@example.org'',
      fetch_url = (\<lambda>u. if u = ''https://www.noracooks.com/category/meal-type/dinner/''
                        then Inl FetchError else Inr ''(lunch page)''),
      est_now = \<lparr>dt_year = 2026, dt_month = 11, dt_day = 4\<rparr>,
      boto3_client = Inr (\<lambda>m. Inr ()),
      lib_html_events = (\<lambda>html. Inr [StartTag ''a'' [(''href'', Some ''/recipes/vegan-chili/'')],
                                       Data ''Vegan Chili'', EndTag ''a'']),
      lib_host_ok = (\<lambda>h. True),
      lib_urljoin = (\<lambda>base h. Inr (''https://www.noracooks.com'' @ h)),
      lib_chooser = (\<lambda>seed xs k. take k xs)\<rparr>"

definition scenario6_undelivered :: world where
  "scenario6_undelivered = scenario6\<lparr>boto3_client := Inr (\<lambda>m. Inl ClientError)\<rparr>"

definition scenario6_no_client :: world where
  "scenario6_no_client = scenario6\<lparr>boto3_client := Inl ImportError\<rparr>"

subsection \<open>Notions for the URL normalizer\<close>

















subsection \<open>The host of a URL\<close>

text \<open>\<^verbatim>\<open>str.partition\<close> for a separator of one character (the part before the first
  separator, whether there is one, the part after it), and the last part of
  \<^verbatim>\<open>str.rpartition\<close>.\<close>

definition partition_str :: "char \<Rightarrow> string \<Rightarrow> string \<times> bool \<times> string" where
  "partition_str c s =
     (takeWhile (\<lambda>x. x \<noteq> c) s, c \<in> set s, drop 1 (dropWhile (\<lambda>x. x \<noteq> c) s))"

definition rpartition_last :: "char \<Rightarrow> string \<Rightarrow> string" where
  "rpartition_last c s = rev (takeWhile (\<lambda>x. x \<noteq> c) (rev s))"

text \<open>The host of a parsed URL as \<^verbatim>\<open>urllib.parse\<close> reports it, \<^verbatim>\<open>ParseResult.hostname\<close>
  with its helper \<^verbatim>\<open>_hostinfo\<close>: the network location without the user information and
  the port, lower-cased up to a zone identifier. \<^verbatim>\<open>is_recipe_url\<close> does not call it.\<close>

definition hostinfo :: "string \<Rightarrow> string \<times> string option" where
  "hostinfo nl =
     (let hi = rpartition_last CHR ''@'' nl;
          br = partition_str CHR ''['' hi
      in if fst (snd br)
         then (let hp = partition_str CHR '']'' (snd (snd br));
                   port = snd (snd (partition_str CHR '':'' (snd (snd hp))))
               in (fst hp, if port = [] then None else Some port))
         else (let hp = partition_str CHR '':'' hi;
                   port = snd (snd hp)
               in (fst hp, if port = [] then None else Some port)))"

definition hostname :: "parse_result \<Rightarrow> string option" where
  "hostname p =
     (let h = fst (hostinfo (netloc p))
      in if h = [] then None
         else (let hz = partition_str CHR ''%'' h
               in Some (lower (fst hz) @ (if fst (snd hz) then ''%'' else []) @ snd (snd hz))))"

section \<open>Verification\<close>

subsection \<open>The title selector\<close>

lemma clean_title_Nil: "clean_title [] = []"
  by (simp add: clean_title_def split_ws_def strip_ws_def)

lemma title_loop_find:
  "title_loop cs =
     find (\<lambda>t. 4 \<le> length t \<and> length t \<le> 120) (map clean_title (List.map_filter (\<lambda>c. c) cs))"
proof (induction cs)
  case Nil
  then show ?case by (simp add: List.map_filter_simps)
next
  case (Cons c cs)
  then show ?case
    by (cases c) (auto simp: List.map_filter_simps Let_def clean_title_Nil)
qed

lemma split_acc_words:
  "list_all (\<lambda>c. \<not> is_space c) w \<Longrightarrow>
     list_all (\<lambda>x. x \<noteq> [] \<and> list_all (\<lambda>c. \<not> is_space c) x) (split_acc w s)"
  by (induction s arbitrary: w) auto

lemma split_ws_words:
  "list_all (\<lambda>x. x \<noteq> [] \<and> list_all (\<lambda>c. \<not> is_space c) x) (split_ws s)"
  using split_acc_words [of "[]" s] by (simp add: split_ws_def)

lemma split_acc_content:
  "concat (split_acc w s) = w @ filter (\<lambda>c. \<not> is_space c) s"
  by (induction s arbitrary: w) auto

lemma strip_ws_id:
  "t = [] \<or> (\<not> is_space (hd t) \<and> \<not> is_space (last t)) \<Longrightarrow> strip_ws t = t"
proof (cases t)
  case Nil
  then show ?thesis by (simp add: strip_ws_def)
next
  case (Cons a as)
  assume "t = [] \<or> (\<not> is_space (hd t) \<and> \<not> is_space (last t))"
  with Cons have h: "\<not> is_space a" and l: "\<not> is_space (last t)" by auto
  have "hd (rev t) = last t" by (rule hd_rev)
  with l have "\<not> is_space (hd (rev t))" by simp
  moreover from Cons have "rev t \<noteq> []" by simp
  ultimately have "dropWhile is_space (rev t) = rev t"
    by (cases "rev t") auto
  moreover from Cons h have "dropWhile is_space t = t" by simp
  ultimately show ?thesis by (simp add: strip_ws_def)
qed

lemma join_words_ends:
  "list_all (\<lambda>x. x \<noteq> [] \<and> list_all (\<lambda>c. \<not> is_space c) x) ws \<Longrightarrow> ws \<noteq> [] \<Longrightarrow>
     join sep ws \<noteq> [] \<and> \<not> is_space (hd (join sep ws)) \<and> \<not> is_space (last (join sep ws))"
proof (induction sep ws rule: join.induct)
  case (1 sep)
  then show ?case by simp
next
  case (2 sep x)
  then show ?case using hd_in_set [of x] last_in_set [of x] by (auto simp: list_all_iff)
next
  case (3 sep x y ys)
  then show ?case by (cases x) (auto simp: list_all_iff)
qed

lemma clean_title_join: "clean_title s = join '' '' (split_ws s)"
proof (cases "split_ws s = []")
  case True
  then show ?thesis by (simp add: clean_title_def strip_ws_def)
next
  case False
  then show ?thesis
    using join_words_ends [OF split_ws_words False, of "'' ''"] strip_ws_id
    by (simp add: clean_title_def)
qed

text \<open>
  Claim C5. \<^verbatim>\<open>pick_title\<close> looks at the visible text, then the aria-label, then the title
  attribute; each candidate that is present is cleaned (its whitespace runs collapsed to
  single spaces, no whitespace at either end), and the result is the first cleaned
  candidate of 4 to 120 characters, or None when there is none. Cleaning is joining the
  whitespace-separated words with one space; the words are non-empty, hold no whitespace
  and keep every other character in order. An anchor with the text of two spaces, no
  aria-label and the title attribute "Best Tacos Ever" gets the title "Best Tacos Ever".
\<close>

theorem pick_title_first_acceptable:
  "pick_title a =
     find (\<lambda>t. 4 \<le> length t \<and> length t \<le> 120)
       (map clean_title (List.map_filter (\<lambda>c. c) [text_of a, aria_label a, title_attr a]))
   \<and> clean_title s = join '' '' (split_ws s)
   \<and> list_all (\<lambda>w. w \<noteq> [] \<and> list_all (\<lambda>c. \<not> is_space c) w) (split_ws s)
   \<and> concat (split_ws s) = filter (\<lambda>c. \<not> is_space c) s
   \<and> pick_title \<lparr>href = h, title_attr = Some ''Best Tacos Ever'', aria_label = None,
         text_of = Some ''  ''\<rparr> = Some ''Best Tacos Ever''"
proof -
  have "pick_title \<lparr>href = h, title_attr = Some ''Best Tacos Ever'', aria_label = None,
         text_of = Some ''  ''\<rparr> = Some ''Best Tacos Ever''"
    by (simp add: pick_title_def clean_title_def split_ws_def is_space_def strip_ws_def)
  moreover have "concat (split_ws s) = filter (\<lambda>c. \<not> is_space c) s"
    using split_acc_content [of "[]" s] by (simp add: split_ws_def)
  ultimately show ?thesis
    using title_loop_find [of "[text_of a, aria_label a, title_attr a]"]
      clean_title_join [of s] split_ws_words [of s]
    by (simp only: pick_title_def simp_thms)
qed

subsection \<open>The deduplicator\<close>

lemma dedupe_loop_acc: "dedupe_loop seen acc rs = acc @ dedupe_loop seen [] rs"
proof (induction rs arbitrary: seen acc)
  case Nil
  then show ?case by simp
next
  case (Cons r rs)
  show ?case
    using Cons.IH [of seen acc] Cons.IH [of "insert (lower (url r)) seen" "acc @ [r]"]
      Cons.IH [of "insert (lower (url r)) seen" "[r]"]
    by (simp add: Let_def)
qed

lemma dedupe_loop_snoc:
  "dedupe_loop seen [] (rs @ [r]) =
     dedupe_loop seen [] rs @
       (if lower (url r) \<in> seen \<union> (\<lambda>x. lower (url x)) ` set rs then [] else [r])"
proof (induction rs arbitrary: seen)
  case Nil
  then show ?case by (simp add: Let_def)
next
  case (Cons x xs)
  show ?case
  proof (cases "lower (url x) \<in> seen")
    case True
    then show ?thesis using Cons.IH [of seen] by (auto simp: Let_def)
  next
    case False
    then show ?thesis
      using Cons.IH [of "insert (lower (url x)) seen"]
        dedupe_loop_acc [of "insert (lower (url x)) seen" "[x]" "xs @ [r]"]
        dedupe_loop_acc [of "insert (lower (url x)) seen" "[x]" "xs"]
      by (auto simp: Let_def)
  qed
qed

lemma dedupe_recipes_snoc:
  "dedupe_recipes (rs @ [r]) =
     dedupe_recipes rs @ (if lower (url r) \<in> (\<lambda>x. lower (url x)) ` set rs then [] else [r])"
  using dedupe_loop_snoc [of "{}" rs r] by (simp add: dedupe_recipes_def)

lemma dedupe_first_occurrences:
  "dedupe_recipes rs =
     concat (map (\<lambda>i. if lower (url (rs ! i)) \<in> (\<lambda>x. lower (url x)) ` set (take i rs) then [] else [rs ! i])
       [0..<length rs])"
proof (induction rs rule: rev_induct)
  case Nil
  then show ?case by (simp add: dedupe_recipes_def)
next
  case (snoc r rs)
  define F where "F = (\<lambda>(xs :: recipe list) i. if lower (url (xs ! i)) \<in> (\<lambda>x. lower (url x)) ` set (take i xs) then [] else [xs ! i])"
  have A: "map (F (rs @ [r])) [0..<length rs] = map (F rs) [0..<length rs]"
    by (rule map_cong) (auto simp: nth_append F_def)
  have B: "F (rs @ [r]) (length rs) = (if lower (url r) \<in> (\<lambda>x. lower (url x)) ` set rs then [] else [r])"
    by (simp add: F_def)
  have IH: "dedupe_recipes rs = concat (map (F rs) [0..<length rs])"
    using snoc.IH by (simp add: F_def)
  have "concat (map (F (rs @ [r])) [0..<length (rs @ [r])]) =
        concat (map (F (rs @ [r])) [0..<length rs]) @ F (rs @ [r]) (length rs)"
    by simp
  also have "\<dots> = dedupe_recipes rs @ (if lower (url r) \<in> (\<lambda>x. lower (url x)) ` set rs then [] else [r])"
    by (simp only: A B IH)
  finally have "dedupe_recipes (rs @ [r]) = concat (map (F (rs @ [r])) [0..<length (rs @ [r])])"
    by (simp only: dedupe_recipes_snoc)
  then show ?case
    by (simp only: F_def)
qed

lemma dedupe_keys: "(\<lambda>x. lower (url x)) ` set (dedupe_recipes rs) = (\<lambda>x. lower (url x)) ` set rs"
proof (induction rs rule: rev_induct)
  case Nil
  then show ?case by (simp add: dedupe_recipes_def)
next
  case (snoc r rs)
  then show ?case by (auto simp: dedupe_recipes_snoc)
qed

lemma dedupe_distinct: "distinct (map (\<lambda>x. lower (url x)) (dedupe_recipes rs))"
proof (induction rs rule: rev_induct)
  case Nil
  then show ?case by (simp add: dedupe_recipes_def)
next
  case (snoc r rs)
  then show ?case
    using dedupe_keys [of rs] by (auto simp: dedupe_recipes_snoc)
qed

lemma dedupe_subseq: "subseq (dedupe_recipes rs) rs"
proof (induction rs rule: rev_induct)
  case Nil
  then show ?case by (simp add: dedupe_recipes_def)
next
  case (snoc r rs)
  then show ?case
    by (auto simp: dedupe_recipes_snoc intro: list_emb_prefix list_emb_append_mono)
qed

lemma dedupe_length: "length (dedupe_recipes rs) = card ((\<lambda>x. lower (url x)) ` set rs)"
proof -
  have "length (dedupe_recipes rs) = length (map (\<lambda>x. lower (url x)) (dedupe_recipes rs))" by simp
  also have "\<dots> = card (set (map (\<lambda>x. lower (url x)) (dedupe_recipes rs)))"
    using dedupe_distinct [of rs] by (simp only: distinct_card)
  also have "\<dots> = card ((\<lambda>x. lower (url x)) ` set rs)"
    using dedupe_keys [of rs] by simp
  finally show ?thesis .
qed

text \<open>
  Claim C4. \<^verbatim>\<open>dedupe_recipes\<close> returns the recipes that are the first of their lower-cased
  URL in the input, in the input's order: the recipe at index i is kept exactly when no
  earlier recipe has the same lower-cased URL. The output is a subsequence of the input,
  its lower-cased URLs are pairwise distinct and are those of the input, and its length is
  the number of distinct lower-cased URLs of the input (so at most that number).
\<close>

theorem dedupe_recipes_first_occurrences:
  "dedupe_recipes rs =
     concat (map (\<lambda>i. if lower (url (rs ! i)) \<in> (\<lambda>x. lower (url x)) ` set (take i rs)
                       then [] else [rs ! i]) [0..<length rs])
   \<and> subseq (dedupe_recipes rs) rs
   \<and> distinct (map (\<lambda>x. lower (url x)) (dedupe_recipes rs))
   \<and> (\<lambda>x. lower (url x)) ` set (dedupe_recipes rs) = (\<lambda>x. lower (url x)) ` set rs
   \<and> length (dedupe_recipes rs) = card ((\<lambda>x. lower (url x)) ` set rs)
   \<and> length (dedupe_recipes rs) \<le> card ((\<lambda>x. lower (url x)) ` set rs)"
  using dedupe_first_occurrences [of rs] dedupe_subseq [of rs] dedupe_distinct [of rs]
    dedupe_keys [of rs] dedupe_length [of rs]
  by simp
subsection \<open>The recipe classifier\<close>

lemma contains_sublist: "contains s sub \<longleftrightarrow> sublist sub s"
  by (induction s) (auto simp: sublist_Cons_right)

lemma sublist_skip_left:
  "set A \<inter> set f = {} \<Longrightarrow> sublist f (A @ m) \<longleftrightarrow> sublist f m"
proof (induction A)
  case Nil
  then show ?case by simp
next
  case (Cons a A)
  have "prefix f (a # A @ m) \<Longrightarrow> f = []"
    using Cons.prems by (cases f) auto
  then show ?case
    using Cons by (auto simp: sublist_Cons_right)
qed

lemma sublist_skip_right:
  "set B \<inter> set f = {} \<Longrightarrow> sublist f (m @ B) \<longleftrightarrow> sublist f m"
proof -
  assume a: "set B \<inter> set f = {}"
  have "sublist f (m @ B) \<longleftrightarrow> sublist (rev f) (rev B @ rev m)"
    using sublist_rev [of f "m @ B"] by simp
  also have "\<dots> \<longleftrightarrow> sublist (rev f) (rev m)"
    using a sublist_skip_left [of "rev B" "rev f" "rev m"] by simp
  also have "\<dots> \<longleftrightarrow> sublist f m"
    by (rule sublist_rev)
  finally show ?thesis .
qed

lemma strip_decomp:
  "\<exists>A B. s = A @ strip cs s @ B \<and> set A \<subseteq> set cs \<and> set B \<subseteq> set cs"
proof -
  let ?P = "\<lambda>c. c \<in> set cs"
  let ?q = "dropWhile ?P s"
  have 1: "s = takeWhile ?P s @ ?q" by simp
  have 2: "?q = rev (dropWhile ?P (rev ?q)) @ rev (takeWhile ?P (rev ?q))"
    by (metis rev_append rev_rev_ident takeWhile_dropWhile_id)
  have 3: "set (takeWhile ?P s) \<subseteq> set cs"
    using set_takeWhileD by fastforce
  have 4: "set (rev (takeWhile ?P (rev ?q))) \<subseteq> set cs"
    using set_takeWhileD by fastforce
  have "s = takeWhile ?P s @ strip cs s @ rev (takeWhile ?P (rev ?q))"
    using 1 2 by (simp add: strip_def rstrip_def lstrip_def)
  with 3 4 show ?thesis by blast
qed



lemma rstrip_dropped:
  "\<exists>B. t = rstrip cs t @ B \<and> set B \<subseteq> set cs"
proof -
  have "t = rev (dropWhile (\<lambda>c. c \<in> set cs) (rev t)) @ rev (takeWhile (\<lambda>c. c \<in> set cs) (rev t))"
    by (metis rev_append rev_rev_ident takeWhile_dropWhile_id)
  moreover have "set (rev (takeWhile (\<lambda>c. c \<in> set cs) (rev t))) \<subseteq> set cs"
    using set_takeWhileD by fastforce
  ultimately show ?thesis unfolding rstrip_def by blast
qed

lemma strip_hd:
  "strip cs s \<noteq> [] \<Longrightarrow> hd (strip cs s) \<notin> set cs"
proof -
  assume a: "strip cs s \<noteq> []"
  let ?q = "lstrip cs s"
  from a have "?q \<noteq> []" by (auto simp: strip_def rstrip_def)
  then have h: "hd ?q \<notin> set cs"
    unfolding lstrip_def using hd_dropWhile by metis
  obtain B where "?q = strip cs s @ B"
    using rstrip_dropped [of ?q cs] by (auto simp: strip_def)
  with a have "hd ?q = hd (strip cs s)" by (metis hd_append2)
  with h show ?thesis by simp
qed

lemma takeWhile_append_fail: "takeWhile P y = [] \<Longrightarrow> takeWhile P (x @ y) = takeWhile P x"
  by (induction x) auto

lemma takeWhile_strip:
  "takeWhile (\<lambda>c. c \<noteq> CHR ''/'') (strip ''/'' p) = first_path_segment p"
proof -
  let ?q = "lstrip ''/'' p"
  obtain B where B: "?q = strip ''/'' p @ B" "set B \<subseteq> set ''/''"
    using rstrip_dropped [of ?q "''/''"] by (auto simp: strip_def)
  have "takeWhile (\<lambda>c. c \<noteq> CHR ''/'') B = []"
    using B(2) by (cases B) auto
  then have "takeWhile (\<lambda>c. c \<noteq> CHR ''/'') (strip ''/'' p @ B) =
      takeWhile (\<lambda>c. c \<noteq> CHR ''/'') (strip ''/'' p)"
    by (rule takeWhile_append_fail)
  with B(1) have "takeWhile (\<lambda>c. c \<noteq> CHR ''/'') ?q = takeWhile (\<lambda>c. c \<noteq> CHR ''/'') (strip ''/'' p)"
    by simp
  then show ?thesis by (simp add: first_path_segment_def lstrip_def)
qed

lemma split_on_hd:
  "split_on sep p \<noteq> [] \<and> hd (split_on sep p) = takeWhile (\<lambda>c. c \<noteq> sep) p"
  by (induction p) (auto split: list.splits)

lemma segments_first:
  assumes "p \<noteq> []" "hd p \<noteq> sep"
  shows "filter (\<lambda>segment. segment \<noteq> []) (split_on sep p) \<noteq> [] \<and>
         hd (filter (\<lambda>segment. segment \<noteq> []) (split_on sep p)) = takeWhile (\<lambda>c. c \<noteq> sep) p"
proof -
  from assms have ne: "takeWhile (\<lambda>c. c \<noteq> sep) p \<noteq> []" by (cases p) auto
  obtain x xs where x: "split_on sep p = x # xs" "x = takeWhile (\<lambda>c. c \<noteq> sep) p"
    using split_on_hd [of sep p] by (cases "split_on sep p") auto
  with ne show ?thesis by simp
qed

lemma fragment_in_stripped:
  assumes "CHR ''/'' \<notin> set f"
  shows "contains (lower (strip ''/'' p)) f \<longleftrightarrow> sublist f (lower p)"
proof -
  obtain A B where d: "p = A @ strip ''/'' p @ B" "set A \<subseteq> set ''/''" "set B \<subseteq> set ''/''"
    using strip_decomp [of p "''/''"] by blast
  have A: "set (lower A) \<inter> set f = {}"
    using d(2) assms by (auto simp: lower_def lower_char_def)
  have B: "set (lower B) \<inter> set f = {}"
    using d(3) assms by (auto simp: lower_def lower_char_def)
  have "lower p = lower A @ lower (strip ''/'' p) @ lower B"
    using d(1) by (metis lower_def map_append)
  then have "sublist f (lower p) \<longleftrightarrow> sublist f (lower (strip ''/'' p))"
    using sublist_skip_left [OF A] sublist_skip_right [OF B] by (metis append.assoc)
  then show ?thesis by (simp add: contains_sublist)
qed

lemma fragments_in_stripped:
  "list_ex (\<lambda>fragment. contains (lower (strip ''/'' p)) fragment) EXCLUDED_PATH_FRAGMENTS
     \<longleftrightarrow> list_ex (\<lambda>fragment. sublist fragment (lower p)) EXCLUDED_PATH_FRAGMENTS"
proof -
  have "\<forall>f \<in> set EXCLUDED_PATH_FRAGMENTS. CHR ''/'' \<notin> set f"
    by (simp add: EXCLUDED_PATH_FRAGMENTS_def)
  then show ?thesis
    using fragment_in_stripped by (simp add: list_ex_iff)
qed

text \<open>
  Claim C2 says that \<^verbatim>\<open>is_recipe_url(u)\<close> returns True whenever the scheme is http or
  https, the host is an allowed host and the three conditions on the path hold. The URL
  below has the scheme https and the host www.noracooks.com, written with the port 443,
  and its path meets the three conditions; \<^verbatim>\<open>is_recipe_url\<close> returns False, as it
  compares the whole network location, port included, with the allowed hosts.
\<close>

theorem is_recipe_url_port_counterexample:
  "\<exists>parsed. urlparse (\<lambda>h. True) ''https://www.noracooks.com:443/vegan-chili'' = Inr parsed
      \<and> scheme parsed = ''https''
      \<and> hostname parsed = Some ''www.noracooks.com''
      \<and> strip ''/'' (path parsed) = ''vegan-chili''
      \<and> lower (first_path_segment (path parsed)) = ''vegan-chili''
      \<and> ''vegan-chili'' \<notin> set EXCLUDED_PATH_PREFIXES
      \<and> list_all (\<lambda>fragment. \<not> sublist fragment (lower (path parsed))) EXCLUDED_PATH_FRAGMENTS
      \<and> is_recipe_url (\<lambda>h. True) ''https://www.noracooks.com:443/vegan-chili'' = Inr False"
proof -
  define parsed where
    "parsed = \<lparr>scheme = ''https'', netloc = ''www.noracooks.com:443'', path = ''/vegan-chili'',
               params = [], query = [], fragment = []\<rparr>"
  have p: "urlparse (\<lambda>h. True) ''https://www.noracooks.com:443/vegan-chili'' = Inr parsed"
    unfolding parsed_def by code_simp
  have h: "hostname parsed = Some ''www.noracooks.com''"
    unfolding parsed_def by code_simp
  have s: "strip ''/'' (path parsed) = ''vegan-chili''"
    unfolding parsed_def by code_simp
  have f: "lower (first_path_segment (path parsed)) = ''vegan-chili''"
    unfolding parsed_def by code_simp
  have e: "''vegan-chili'' \<notin> set EXCLUDED_PATH_PREFIXES"
    by code_simp
  have "list_all (\<lambda>fragment. \<not> contains (lower (path parsed)) fragment) EXCLUDED_PATH_FRAGMENTS"
    unfolding parsed_def by code_simp
  then have c: "list_all (\<lambda>fragment. \<not> sublist fragment (lower (path parsed))) EXCLUDED_PATH_FRAGMENTS"
    by (simp add: contains_sublist)
  have r: "is_recipe_url (\<lambda>h. True) ''https://www.noracooks.com:443/vegan-chili'' = Inr False"
    by code_simp
  have "scheme parsed = ''https''" by (simp add: parsed_def)
  with p h s f e c r show ?thesis by blast
qed

text \<open>
  Claim C2, amended. \<^verbatim>\<open>is_recipe_url(u)\<close> returns True exactly when \<^verbatim>\<open>urlparse\<close> accepts
  \<open>u\<close> and the scheme is http or https, the lower-cased network location (the host
  together with any user information and port) is www.noracooks.com or noracooks.com, the
  path stripped of leading and trailing slashes is not empty, the lower-cased first path
  segment is not an excluded prefix, and no excluded fragment is a substring of the
  lower-cased path.
\<close>

theorem is_recipe_url_iff:
  "is_recipe_url host_ok u = Inr True \<longleftrightarrow>
     (\<exists>parsed. urlparse host_ok u = Inr parsed
        \<and> scheme parsed \<in> {''http'', ''https''}
        \<and> lower (netloc parsed) \<in> {''www.noracooks.com'', ''noracooks.com''}
        \<and> strip ''/'' (path parsed) \<noteq> []
        \<and> lower (first_path_segment (path parsed)) \<notin> set EXCLUDED_PATH_PREFIXES
        \<and> \<not> list_ex (\<lambda>fragment. sublist fragment (lower (path parsed))) EXCLUDED_PATH_FRAGMENTS)"
proof (cases "urlparse host_ok u")
  case (Inl e)
  then show ?thesis by (simp add: is_recipe_url_def)
next
  case (Inr parsed)
  let ?p = "strip ''/'' (path parsed)"
  show ?thesis
  proof (cases "?p = []")
    case True
    with Inr show ?thesis by (simp add: is_recipe_url_def Let_def)
  next
    case False
    then have "hd ?p \<noteq> CHR ''/''" using strip_hd [of "''/''" "path parsed"] by simp
    with False have seg: "filter (\<lambda>segment. segment \<noteq> []) (split_on CHR ''/'' ?p) \<noteq> []"
      "hd (filter (\<lambda>segment. segment \<noteq> []) (split_on CHR ''/'' ?p)) = first_path_segment (path parsed)"
      using segments_first [of ?p "CHR ''/''"] takeWhile_strip [of "path parsed"] by simp_all
    show ?thesis
      unfolding is_recipe_url_def Inr
      using False seg fragments_in_stripped [of "path parsed"]
      by (simp add: Let_def del: insert_iff)
  qed
qed

subsection \<open>The link extractor\<close>

lemma feed_append: "feed (xs @ ys) self = feed ys (feed xs self)"
  by (induction xs arbitrary: self) auto

lemma handle_no_close: "\<not> closes_anchor e \<Longrightarrow> anchors (handle e self) = anchors self"
  by (cases e) (auto simp: handle_starttag_def handle_data_def handle_endtag_def split: option.splits)

lemma feed_no_close:
  "list_all (\<lambda>e. \<not> closes_anchor e) es \<Longrightarrow> anchors (feed es self) = anchors self"
  by (induction es arbitrary: self) (auto simp: handle_no_close)

text \<open>
  Claim C8 says that an anchor still open at the end of the input gets a record. It does
  not: markup that opens an anchor, gives it text and ends yields no record at all.
\<close>

theorem unclosed_anchor_counterexample:
  "anchors (feed [StartTag ''a'' [(''href'', Some ''/recipes/vegan-chili/'')], Data ''Vegan Chili'']
      new_extractor) = []"
  by (simp add: new_extractor_def handle_starttag_def handle_data_def)

text \<open>
  Claim C8, amended. When the input ends while an anchor is still open (no closing anchor
  tag follows its opening tag), the extractor emits no record for it and drops its text:
  the output is the records of the anchors closed before it.
\<close>

theorem unclosed_anchor_dropped:
  assumes "list_all (\<lambda>e. \<not> closes_anchor e) rest"
  shows "anchors (feed (before @ StartTag ''a'' attrs # rest) new_extractor) =
         anchors (feed before new_extractor)"
proof -
  have "list_all (\<lambda>e. \<not> closes_anchor e) (StartTag ''a'' attrs # rest)"
    using assms by simp
  then show ?thesis
    using feed_no_close [of "StartTag ''a'' attrs # rest" "feed before new_extractor"]
    by (simp only: feed_append)
qed

text \<open>A closed anchor followed by an unclosed one: only the first has a record.\<close>

theorem unclosed_anchor_dropped_witness:
  "list_all (\<lambda>e. \<not> closes_anchor e) [Data ''Tofu'', StartTag ''b'' [], Data ''Scramble'', EndTag ''b'']
   \<and> anchors (feed ([StartTag ''a'' [(''href'', Some ''/recipes/vegan-chili/'')], Data ''Vegan Chili'',
                      EndTag ''a''] @
                     StartTag ''a'' [(''href'', Some ''/recipes/tofu-scramble/'')] #
                     [Data ''Tofu'', StartTag ''b'' [], Data ''Scramble'', EndTag ''b''])
               new_extractor) =
       [\<lparr>href = Some ''/recipes/vegan-chili/'', title_attr = None, aria_label = None,
          text_of = Some ''Vegan Chili''\<rparr>]"
  using unclosed_anchor_dropped [of "[Data ''Tofu'', StartTag ''b'' [], Data ''Scramble'', EndTag ''b'']"
      "[StartTag ''a'' [(''href'', Some ''/recipes/vegan-chili/'')], Data ''Vegan Chili'', EndTag ''a'']"
      "[(''href'', Some ''/recipes/tofu-scramble/'')]"]
  by (simp add: new_extractor_def handle_starttag_def handle_data_def handle_endtag_def attr_get_def
      anchor_text_def split_ws_def strip_ws_def is_space_def)

lemma handle_inside:
  "current self = Some c \<Longrightarrow> \<not> opens_anchor e \<Longrightarrow> \<not> closes_anchor e \<Longrightarrow>
     handle e self = self\<lparr>text_parts := text_parts self @ data_of [e]\<rparr>"
  by (cases e) (auto simp: handle_starttag_def handle_data_def handle_endtag_def)

lemma feed_inside:
  "current self = Some c \<Longrightarrow> list_all (\<lambda>e. \<not> opens_anchor e \<and> \<not> closes_anchor e) es \<Longrightarrow>
     feed es self = self\<lparr>text_parts := text_parts self @ data_of es\<rparr>"
proof (induction es arbitrary: self)
  case Nil
  then show ?case by simp
next
  case (Cons e es)
  have h: "handle e self = self\<lparr>text_parts := text_parts self @ data_of [e]\<rparr>"
    using Cons.prems handle_inside [of self c e] by simp
  have d: "data_of (e # es) = data_of [e] @ data_of es"
    by (cases e) auto
  have "feed es (handle e self) = (handle e self)\<lparr>text_parts := text_parts (handle e self) @ data_of es\<rparr>"
    using Cons.IH [of "handle e self"] Cons.prems h by simp
  then show ?case
    using h d by simp
qed

lemma handle_outside:
  "current self = None \<Longrightarrow> \<not> opens_anchor e \<Longrightarrow> handle e self = self"
  by (cases e) (auto simp: handle_starttag_def handle_data_def handle_endtag_def)

lemma feed_outside:
  "current self = None \<Longrightarrow> list_all (\<lambda>e. \<not> opens_anchor e) es \<Longrightarrow> feed es self = self"
  by (induction es arbitrary: self) (auto simp: handle_outside)

text \<open>
  Claim C10. When a second anchor opens before the first is closed (only text and other
  tags in between), the first anchor's attributes and text are discarded; the first
  closing tag appends one record, with the inner anchor's attributes and the text read
  since the inner anchor opened, and leaves the extractor outside any anchor; closing
  anchor tags after that (with no new opening anchor tag) change nothing.
\<close>

theorem nested_anchor_inner_only:
  assumes "list_all (\<lambda>e. \<not> opens_anchor e \<and> \<not> closes_anchor e) outer_part"
    and "list_all (\<lambda>e. \<not> opens_anchor e \<and> \<not> closes_anchor e) inner_part"
    and "list_all (\<lambda>e. \<not> opens_anchor e) later"
  shows "feed (StartTag ''a'' outer_attrs # outer_part @
               StartTag ''a'' inner_attrs # inner_part @ EndTag ''a'' # later) self =
         self\<lparr>anchors := anchors self @
                  [\<lparr>href = attr_get inner_attrs ''href'',
                    title_attr = attr_get inner_attrs ''title'',
                    aria_label = attr_get inner_attrs ''aria-label'',
                    text_of = Some (anchor_text (data_of inner_part))\<rparr>],
               current := None, text_parts := []\<rparr>"
proof -
  define outer where "outer = \<lparr>href = attr_get outer_attrs ''href'',
      title_attr = attr_get outer_attrs ''title'',
      aria_label = attr_get outer_attrs ''aria-label'', text_of = None\<rparr>"
  define inner where "inner = \<lparr>href = attr_get inner_attrs ''href'',
      title_attr = attr_get inner_attrs ''title'',
      aria_label = attr_get inner_attrs ''aria-label'', text_of = None\<rparr>"
  define s1 where "s1 = self\<lparr>current := Some outer, text_parts := []\<rparr>"
  define s3 where "s3 = self\<lparr>current := Some inner, text_parts := []\<rparr>"
  define s5 where "s5 = self\<lparr>anchors := anchors self @
      [inner\<lparr>text_of := Some (anchor_text (data_of inner_part))\<rparr>], current := None, text_parts := []\<rparr>"
  have 1: "handle (StartTag ''a'' outer_attrs) self = s1"
    by (simp add: handle_starttag_def s1_def outer_def)
  have 2: "feed outer_part s1 = s1\<lparr>text_parts := data_of outer_part\<rparr>"
    using feed_inside [of s1 outer outer_part] assms(1) by (simp add: s1_def)
  have 3: "handle (StartTag ''a'' inner_attrs) (s1\<lparr>text_parts := data_of outer_part\<rparr>) = s3"
    by (simp add: handle_starttag_def s1_def s3_def inner_def)
  have 4: "feed inner_part s3 = s3\<lparr>text_parts := data_of inner_part\<rparr>"
    using feed_inside [of s3 inner inner_part] assms(2) by (simp add: s3_def)
  have 5: "handle (EndTag ''a'') (s3\<lparr>text_parts := data_of inner_part\<rparr>) = s5"
    by (simp add: handle_endtag_def s3_def s5_def)
  have 6: "feed later s5 = s5"
    using feed_outside [of s5 later] assms(3) by (simp add: s5_def)
  have "feed (StartTag ''a'' outer_attrs # outer_part @
               StartTag ''a'' inner_attrs # inner_part @ EndTag ''a'' # later) self =
        feed later (handle (EndTag ''a'') (feed inner_part (handle (StartTag ''a'' inner_attrs)
          (feed outer_part (handle (StartTag ''a'' outer_attrs) self)))))"
    by (simp add: feed_append)
  also have "\<dots> = s5"
    by (simp only: 1 2 3 4 5 6)
  finally show ?thesis
    by (simp add: s5_def inner_def)
qed

text \<open>An anchor inside an anchor, and an unmatched closing tag at the end.\<close>

theorem nested_anchor_inner_only_witness:
  "list_all (\<lambda>e. \<not> opens_anchor e \<and> \<not> closes_anchor e) [Data ''Outer '']
   \<and> list_all (\<lambda>e. \<not> opens_anchor e \<and> \<not> closes_anchor e) [Data ''Inner'']
   \<and> list_all (\<lambda>e. \<not> opens_anchor e) [Data '' tail'', EndTag ''a'']
   \<and> anchors (feed (StartTag ''a'' [(''href'', Some ''/outer/'')] # [Data ''Outer ''] @
                     StartTag ''a'' [(''href'', Some ''/inner/'')] # [Data ''Inner''] @
                     EndTag ''a'' # [Data '' tail'', EndTag ''a'']) new_extractor) =
       [\<lparr>href = Some ''/inner/'', title_attr = None, aria_label = None, text_of = Some ''Inner''\<rparr>]"
  using nested_anchor_inner_only [of "[Data ''Outer '']" "[Data ''Inner'']" "[Data '' tail'', EndTag ''a'']"
      "[(''href'', Some ''/outer/'')]" "[(''href'', Some ''/inner/'')]" new_extractor]
  by (simp add: new_extractor_def attr_get_def anchor_text_def split_ws_def strip_ws_def is_space_def)

subsection \<open>extract_recipes: an empty href\<close>

text \<open>
  Claim C9. In the loop of \<^verbatim>\<open>extract_recipes\<close>, an anchor whose href is the empty string
  is skipped as one whose href is absent: the result is that of the list without the
  anchor, also when \<^verbatim>\<open>urljoin\<close> would raise on every call, so neither resolution nor
  classification nor title selection is reached for it.
\<close>

theorem empty_href_skipped:
  "recipes_loop host_ok urljoin base_url recipes (before @ a\<lparr>href := Some []\<rparr> # after) =
     recipes_loop host_ok urljoin base_url recipes (before @ a\<lparr>href := None\<rparr> # after)
   \<and> recipes_loop host_ok urljoin base_url recipes (before @ a\<lparr>href := Some []\<rparr> # after) =
     recipes_loop host_ok urljoin base_url recipes (before @ after)
   \<and> recipes_loop host_ok (\<lambda>base h. Inl ValueError) base_url recipes [a\<lparr>href := Some []\<rparr>] = Inr recipes"
proof -
  have "recipes_loop host_ok urljoin base_url recipes (before @ a\<lparr>href := Some []\<rparr> # after) =
     recipes_loop host_ok urljoin base_url recipes (before @ after)"
    by (induction before arbitrary: recipes) (auto split: option.splits sum.splits)
  moreover have "recipes_loop host_ok urljoin base_url recipes (before @ a\<lparr>href := None\<rparr> # after) =
     recipes_loop host_ok urljoin base_url recipes (before @ after)"
    by (induction before arbitrary: recipes) (auto split: option.splits sum.splits)
  ultimately show ?thesis by simp
qed

subsection \<open>The weekly selector\<close>

text \<open>
  Claim C1. Two instants with the same ISO year and ISO week number give the same seed
  string, and \<^verbatim>\<open>pick_weekly_recipes\<close> returns the same result for both, whatever the list,
  the count and the choice the seeded generator makes.
\<close>

theorem pick_weekly_recipes_same_week:
  assumes "fst (isocalendar a) = fst (isocalendar b)"
    and "fst (snd (isocalendar a)) = fst (snd (isocalendar b))"
  shows "week_seed a = week_seed b \<and>
         pick_weekly_recipes chooser recipes count a = pick_weekly_recipes chooser recipes count b"
proof -
  have "week_seed a = week_seed b"
    using assms by (cases "isocalendar a"; cases "isocalendar b") (simp add: week_seed_def)
  then show ?thesis by (simp add: pick_weekly_recipes_def)
qed

lemma iso_2024_12_30: "isocalendar \<lparr>dt_year = 2024, dt_month = 12, dt_day = 30\<rparr> = (2025, 1, 1)"
  by code_simp

lemma iso_2025_01_05: "isocalendar \<lparr>dt_year = 2025, dt_month = 1, dt_day = 5\<rparr> = (2025, 1, 7)"
  by code_simp

text \<open>Monday 30 December 2024 and Sunday 5 January 2025 are both in ISO week 2025-W1.\<close>

theorem pick_weekly_recipes_same_week_witness:
  "fst (isocalendar \<lparr>dt_year = 2024, dt_month = 12, dt_day = 30\<rparr>) =
     fst (isocalendar \<lparr>dt_year = 2025, dt_month = 1, dt_day = 5\<rparr>)
   \<and> fst (snd (isocalendar \<lparr>dt_year = 2024, dt_month = 12, dt_day = 30\<rparr>)) =
     fst (snd (isocalendar \<lparr>dt_year = 2025, dt_month = 1, dt_day = 5\<rparr>))
   \<and> week_seed \<lparr>dt_year = 2024, dt_month = 12, dt_day = 30\<rparr> =
     week_seed \<lparr>dt_year = 2025, dt_month = 1, dt_day = 5\<rparr>
   \<and> pick_weekly_recipes (\<lambda>seed xs k. take k (rev xs)) [1, 2, 3, 4, 5, 6, 7 :: nat] 5
       \<lparr>dt_year = 2024, dt_month = 12, dt_day = 30\<rparr> =
     pick_weekly_recipes (\<lambda>seed xs k. take k (rev xs)) [1, 2, 3, 4, 5, 6, 7 :: nat] 5
       \<lparr>dt_year = 2025, dt_month = 1, dt_day = 5\<rparr>"
  using pick_weekly_recipes_same_week [of "\<lparr>dt_year = 2024, dt_month = 12, dt_day = 30\<rparr>"
      "\<lparr>dt_year = 2025, dt_month = 1, dt_day = 5\<rparr>" "\<lambda>seed xs k. take k (rev xs)"
      "[1, 2, 3, 4, 5, 6, 7 :: nat]" 5]
  by (simp add: iso_2024_12_30 iso_2025_01_05)

text \<open>
  Claim C3. When \<^verbatim>\<open>sample\<close> returns as many elements as it is asked for, for a count of at
  least 0 \<^verbatim>\<open>pick_weekly_recipes\<close> returns normally, with min(count, len(list)) elements; a
  list of at most count elements is returned as it is, whatever the generator would choose.
\<close>

theorem pick_weekly_recipes_size:
  assumes "\<And>seed xs k. k \<le> length xs \<Longrightarrow> length (chooser seed xs k) = k"
    and "0 \<le> count"
  shows "\<exists>selected. pick_weekly_recipes chooser recipes count now = Inr selected
           \<and> length selected = min (nat count) (length recipes)
           \<and> (int (length recipes) \<le> count \<longrightarrow>
                selected = recipes \<and> pick_weekly_recipes any_chooser recipes count now = Inr recipes)"
  using assms by (auto simp: pick_weekly_recipes_def random_sample_def Let_def)

text \<open>Three recipes and a count of 5 (scenario 5), and seven recipes and a count of 5.\<close>

theorem pick_weekly_recipes_size_witness:
  "(0 :: int) \<le> 5
   \<and> pick_weekly_recipes (\<lambda>seed xs k. take k (rev xs)) [1, 2, 3 :: nat] 5
       \<lparr>dt_year = 2026, dt_month = 11, dt_day = 4\<rparr> = Inr [1, 2, 3]
   \<and> (\<exists>selected. pick_weekly_recipes (\<lambda>seed xs k. take k (rev xs)) [1, 2, 3, 4, 5, 6, 7 :: nat] 5
         \<lparr>dt_year = 2026, dt_month = 11, dt_day = 4\<rparr> = Inr selected \<and> length selected = 5)"
proof -
  have c: "\<And>seed (xs :: nat list) k. k \<le> length xs \<Longrightarrow> length (take k (rev xs)) = k"
    by simp
  have z: "(0 :: int) \<le> 5" by simp
  show ?thesis
    using pick_weekly_recipes_size [of "\<lambda>seed xs k. take k (rev xs)" 5 "[1, 2, 3 :: nat]"
        "\<lparr>dt_year = 2026, dt_month = 11, dt_day = 4\<rparr>", OF c z]
      pick_weekly_recipes_size [of "\<lambda>seed xs k. take k (rev xs)" 5 "[1, 2, 3, 4, 5, 6, 7 :: nat]"
        "\<lparr>dt_year = 2026, dt_month = 11, dt_day = 4\<rparr>", OF c z]
    by auto
qed

subsection \<open>The URL normalizer: urlsplit as slices\<close>















subsection \<open>Characters, paths and schemes\<close>















subsection \<open>urlsplit reads back what urlunsplit writes\<close>











subsection \<open>The components urlsplit returns\<close>















subsection \<open>strip_url applied twice\<close>














subsection \<open>The run: failures of single source pages\<close>

lemma fetch_loop_sources:
  "fetch_loop w recipes us = recipes @ concat (map (source_recipes w) us)"
  by (induction us arbitrary: recipes) (auto simp: source_recipes_def split: sum.splits)

lemma pick_five_returns:
  "\<exists>selected. pick_weekly_recipes ch recipes 5 now = Inr selected
      \<and> (if length recipes \<le> 5 then selected = recipes else selected = ch (week_seed now) recipes 5)"
  by (auto simp: pick_weekly_recipes_def random_sample_def Let_def)

lemma main_outcome:
  assumes "truthy (env_recipient w)" and "truthy (env_sender w)"
  shows "\<exists>m selected.
           pick_weekly_recipes (lib_chooser w)
               (dedupe_recipes (concat (map (source_recipes w) RECIPE_PAGES))) 5 (est_now w) = Inr selected
         \<and> em_sender m = the (env_sender w) \<and> em_recipient m = the (env_recipient w)
         \<and> em_subject m =
             (if dedupe_recipes (concat (map (source_recipes w) RECIPE_PAGES)) = []
              then ''Weekly Vegan Recipes - '' @ week_label_of (est_now w) @ '' - No recipes found''
              else ''Weekly Vegan Recipes - '' @ week_label_of (est_now w))
         \<and> em_body m =
             (if dedupe_recipes (concat (map (source_recipes w) RECIPE_PAGES)) = [] then no_recipes_body
              else format_recipes selected (week_label_of (est_now w)))
         \<and> main w =
             (case boto3_client w of
                Inl exc \<Rightarrow> Inl exc
              | Inr ses \<Rightarrow>
                  Inr (Some m,
                       case ses m of
                         Inr response \<Rightarrow>
                           Success (length (dedupe_recipes (concat (map (source_recipes w) RECIPE_PAGES))))
                       | Inl exc \<Rightarrow> Failure ''Failed to send email''))"
proof -
  define recipes where "recipes = dedupe_recipes (concat (map (source_recipes w) RECIPE_PAGES))"
  obtain selected where sel: "pick_weekly_recipes (lib_chooser w) recipes 5 (est_now w) = Inr selected"
    using pick_five_returns [of "lib_chooser w" recipes "est_now w"] by blast
  have fl: "dedupe_recipes (fetch_loop w [] RECIPE_PAGES) = recipes"
    by (simp add: fetch_loop_sources recipes_def)
  define subject where
    "subject = (if recipes = []
                then ''Weekly Vegan Recipes - '' @ week_label_of (est_now w) @ '' - No recipes found''
                else ''Weekly Vegan Recipes - '' @ week_label_of (est_now w))"
  define body where
    "body = (if recipes = [] then no_recipes_body
             else format_recipes selected (week_label_of (est_now w)))"
  define m where
    "m = \<lparr>em_sender = the (env_sender w), em_recipient = the (env_recipient w),
           em_subject = subject, em_body = body\<rparr>"
  have run: "main w =
      (case boto3_client w of
         Inl exc \<Rightarrow> Inl exc
       | Inr ses \<Rightarrow>
           Inr (Some m,
                case ses m of
                  Inr response \<Rightarrow> Success (length recipes)
                | Inl exc \<Rightarrow> Failure ''Failed to send email''))"
    using assms sel fl
    by (cases "recipes = []")
       (simp_all add: main_def send_email_def Let_def m_def subject_def body_def split: sum.splits)
  have parts: "em_sender m = the (env_sender w)" "em_recipient m = the (env_recipient w)"
    "em_subject m = subject" "em_body m = body"
    by (simp_all add: m_def)
  show ?thesis
    unfolding recipes_def [symmetric]
    by (rule exI [of _ m], rule exI [of _ selected])
       (simp add: sel parts run subject_def body_def)
qed

lemma scenario6_recipes:
  "dedupe_recipes (concat (map (source_recipes scenario6) RECIPE_PAGES)) =
     [\<lparr>title = ''Vegan Chili'', url = ''https://www.noracooks.com/recipes/vegan-chili''\<rparr>]"
  by code_simp

lemma scenario6_undelivered_sources:
  "fetch_url scenario6_undelivered = fetch_url scenario6"
  "lib_html_events scenario6_undelivered = lib_html_events scenario6"
  "lib_host_ok scenario6_undelivered = lib_host_ok scenario6"
  "lib_urljoin scenario6_undelivered = lib_urljoin scenario6"
  "fetch_url scenario6_no_client = fetch_url scenario6"
  "lib_html_events scenario6_no_client = lib_html_events scenario6"
  "lib_host_ok scenario6_no_client = lib_host_ok scenario6"
  "lib_urljoin scenario6_no_client = lib_urljoin scenario6"
  by (simp_all add: scenario6_undelivered_def scenario6_no_client_def)

lemma scenario6_lunch:
  "source_recipes scenario6 (RECIPE_PAGES ! 1) =
     [\<lparr>title = ''Vegan Chili'', url = ''https://www.noracooks.com/recipes/vegan-chili''\<rparr>]"
  by code_simp

text \<open>
  Claim C7 says that every run in which some source pages fail and others succeed ends
  with a non-error result. In the two runs below the dinner page cannot be fetched and the
  lunch page yields one recipe. In the first the mail service refuses the message built
  from it, and the result has the status "error". In the second the SES client cannot be
  created: \<^verbatim>\<open>send_email\<close> raises before its \<^verbatim>\<open>try\<close>, and the exception leaves \<^verbatim>\<open>main\<close>.
\<close>

theorem source_failure_counterexample:
  "fetch_url scenario6_undelivered (RECIPE_PAGES ! 0) = Inl FetchError
   \<and> source_recipes scenario6_undelivered (RECIPE_PAGES ! 1) =
       [\<lparr>title = ''Vegan Chili'', url = ''https://www.noracooks.com/recipes/vegan-chili''\<rparr>]
   \<and> (\<exists>m. main scenario6_undelivered = Inr (Some m, Failure ''Failed to send email''))
   \<and> fetch_url scenario6_no_client (RECIPE_PAGES ! 0) = Inl FetchError
   \<and> source_recipes scenario6_no_client (RECIPE_PAGES ! 1) =
       [\<lparr>title = ''Vegan Chili'', url = ''https://www.noracooks.com/recipes/vegan-chili''\<rparr>]
   \<and> main scenario6_no_client = Inl ImportError"
proof -
  have t: "truthy (env_recipient scenario6_undelivered)" "truthy (env_sender scenario6_undelivered)"
    by (simp_all add: scenario6_undelivered_def scenario6_def truthy_def)
  have t': "truthy (env_recipient scenario6_no_client)" "truthy (env_sender scenario6_no_client)"
    by (simp_all add: scenario6_no_client_def scenario6_def truthy_def)
  have f: "fetch_url scenario6 (RECIPE_PAGES ! 0) = Inl FetchError"
    by (simp add: scenario6_def RECIPE_PAGES_def)
  have r: "source_recipes scenario6_undelivered (RECIPE_PAGES ! 1) = source_recipes scenario6 (RECIPE_PAGES ! 1)"
    "source_recipes scenario6_no_client (RECIPE_PAGES ! 1) = source_recipes scenario6 (RECIPE_PAGES ! 1)"
    unfolding source_recipes_def scenario6_undelivered_sources by (rule refl)+
  have s: "boto3_client scenario6_undelivered = Inr (\<lambda>m. Inl ClientError)"
    "boto3_client scenario6_no_client = Inl ImportError"
    by (simp_all add: scenario6_undelivered_def scenario6_no_client_def)
  have 1: "\<exists>m. main scenario6_undelivered = Inr (Some m, Failure ''Failed to send email'')"
    using main_outcome [OF t] by (auto simp: s)
  have 2: "main scenario6_no_client = Inl ImportError"
    using main_outcome [OF t'] by (auto simp: s)
  note r' = r [unfolded scenario6_lunch]
  show ?thesis
    using 1 2 f r' by (simp add: scenario6_undelivered_sources)
qed

text \<open>
  Claim C7, amended. A failure fetching or parsing a source page never aborts the run.
  When the two delivery addresses are configured, and whatever fetching and extraction do
  for each source page, a page whose fetch or extraction raises contributes no recipe, the
  recipes of the other pages are deduplicated, at most five are selected and formatted,
  and the message is handed to \<^verbatim>\<open>send_email\<close>. The outcome of the run is then that of the
  delivery alone: the success status with the number of deduplicated recipes when the mail
  service accepts the message, the error status "Failed to send email" when it raises,
  and an exception leaves \<^verbatim>\<open>main\<close> exactly when importing boto3 or creating the SES client
  raises.
\<close>

theorem main_survives_source_failures:
  assumes "truthy (env_recipient w)" and "truthy (env_sender w)"
  shows "\<exists>m selected.
           pick_weekly_recipes (lib_chooser w)
               (dedupe_recipes (concat (map (source_recipes w) RECIPE_PAGES))) 5 (est_now w) = Inr selected
         \<and> em_sender m = the (env_sender w) \<and> em_recipient m = the (env_recipient w)
         \<and> em_subject m =
             (if dedupe_recipes (concat (map (source_recipes w) RECIPE_PAGES)) = []
              then ''Weekly Vegan Recipes - '' @ week_label_of (est_now w) @ '' - No recipes found''
              else ''Weekly Vegan Recipes - '' @ week_label_of (est_now w))
         \<and> em_body m =
             (if dedupe_recipes (concat (map (source_recipes w) RECIPE_PAGES)) = [] then no_recipes_body
              else format_recipes selected (week_label_of (est_now w)))
         \<and> main w =
             (case boto3_client w of
                Inl exc \<Rightarrow> Inl exc
              | Inr ses \<Rightarrow>
                  Inr (Some m,
                       case ses m of
                         Inr response \<Rightarrow>
                           Success (length (dedupe_recipes (concat (map (source_recipes w) RECIPE_PAGES))))
                       | Inl exc \<Rightarrow> Failure ''Failed to send email''))"
  using assms by (rule main_outcome)

text \<open>Scenario 6: the dinner page cannot be fetched, the lunch page yields one recipe and
  the delivery succeeds; the run reports success with one recipe.\<close>

theorem main_survives_source_failures_witness:
  "truthy (env_recipient scenario6) \<and> truthy (env_sender scenario6)
   \<and> fetch_url scenario6 (RECIPE_PAGES ! 0) = Inl FetchError
   \<and> (\<exists>m. main scenario6 = Inr (Some m, Success 1)
          \<and> em_body m =
              format_recipes [\<lparr>title = ''Vegan Chili'', url = ''https://www.noracooks.com/recipes/vegan-chili''\<rparr>]
                ''Week of Nov 04, 2026'')"
proof -
  have t: "truthy (env_recipient scenario6)" "truthy (env_sender scenario6)"
    by (simp_all add: scenario6_def truthy_def)
  have f: "fetch_url scenario6 (RECIPE_PAGES ! 0) = Inl FetchError"
    by (simp add: scenario6_def RECIPE_PAGES_def)
  have s: "boto3_client scenario6 = Inr (\<lambda>m. Inr ())" "lib_chooser scenario6 = (\<lambda>seed xs k. take k xs)"
    "est_now scenario6 = \<lparr>dt_year = 2026, dt_month = 11, dt_day = 4\<rparr>"
    by (simp_all add: scenario6_def)
  have l: "week_label_of \<lparr>dt_year = 2026, dt_month = 11, dt_day = 4\<rparr> = ''Week of Nov 04, 2026''"
    by code_simp
  have p: "pick_weekly_recipes (\<lambda>seed xs k. take k xs)
      [\<lparr>title = ''Vegan Chili'', url = ''https://www.noracooks.com/recipes/vegan-chili''\<rparr>] 5
      \<lparr>dt_year = 2026, dt_month = 11, dt_day = 4\<rparr> =
      Inr [\<lparr>title = ''Vegan Chili'', url = ''https://www.noracooks.com/recipes/vegan-chili''\<rparr>]"
    by (simp add: pick_weekly_recipes_def)
  show ?thesis
    using main_survives_source_failures [OF t] t f
    by (auto simp: scenario6_recipes s l p)
qed

end
